theory Spec2Isabelle
  imports Main
begin

section \<open>JavaScript values\<close>

text \<open>
  The values that travel in action payloads and in the fields of a worker's entry.
  Numbers are restricted to integers; an object literal is the list of its properties,
  the first binding of a name being the live one.
\<close>

datatype jsval =
    JUndefined
  | JNull
  | JBool bool
  | JNum int
  | JStr string
  | JArr "jsval list"
  | JObj "(string \<times> jsval) list"

datatype error = TypeError

text \<open>Truthiness, as the operator \<open>||\<close> tests it.\<close>

fun truthy :: "jsval \<Rightarrow> bool" where
  "truthy JUndefined = False"
| "truthy JNull = False"
| "truthy (JBool b) = b"
| "truthy (JNum n) = (n \<noteq> 0)"
| "truthy (JStr s) = (s \<noteq> [])"
| "truthy (JArr xs) = True"
| "truthy (JObj kvs) = True"

definition js_or :: "jsval \<Rightarrow> jsval \<Rightarrow> jsval" where
  "js_or a b = (if truthy a then a else b)"

text \<open>
  Property access \<open>v.k\<close> for the two property names the registry reads, \<open>worker\<close> and
  \<open>error\<close>: reading a property of \<open>undefined\<close> or \<open>null\<close> throws a TypeError, an object
  gives the property's value or \<open>undefined\<close>, and no primitive or array has a property
  of either name.
\<close>

fun get_prop :: "jsval \<Rightarrow> string \<Rightarrow> error + jsval" where
  "get_prop JUndefined k = Inl TypeError"
| "get_prop JNull k = Inl TypeError"
| "get_prop (JObj kvs) k = Inr (case map_of kvs k of None \<Rightarrow> JUndefined | Some v \<Rightarrow> v)"
| "get_prop v k = Inr JUndefined"

text \<open>The \<open>i\<close>-th argument of a call: a missing argument reads as \<open>undefined\<close>.\<close>

fun argument :: "jsval list \<Rightarrow> nat \<Rightarrow> jsval" where
  "argument [] i = JUndefined"
| "argument (x # xs) 0 = x"
| "argument (x # xs) (Suc i) = argument xs i"

section \<open>Actions\<close>

text \<open>
  A Flux standard action: its \<open>type\<close> tag and its \<open>payload\<close>.  The registry reads no
  other property of an action.
\<close>

record action =
  atype :: string
  payload :: jsval

text \<open>
  \<open>createAction(type, payloadCreator)\<close> of redux-actions: the action creator applies the
  payload creator to the arguments of the call.  (An \<open>Error\<close> instance as first argument,
  which the library may treat apart, is no value of \<open>jsval\<close>; the creators below are
  called with a worker identifier first.)
\<close>

definition createAction :: "string \<Rightarrow> (jsval list \<Rightarrow> jsval) \<Rightarrow> jsval list \<Rightarrow> action" where
  "createAction ty payloadCreator args = \<lparr>atype = ty, payload = payloadCreator args\<rparr>"

section \<open>state/workers.js\<close>

definition BUSY :: string where "BUSY = ''ship-yard/workers/BUSY''"
definition DONE :: string where "DONE = ''ship-yard/workers/DONE''"
definition ERROR :: string where "ERROR = ''ship-yard/workers/ERROR''"
definition OFFLINE :: string where "OFFLINE = ''ship-yard/workers/OFFLINE''"
definition READY :: string where "READY = ''ship-yard/workers/READY''"
definition STOP :: string where "STOP = ''ship-yard/workers/STOP''"

definition WORKER_BUNDLER :: string where
  "WORKER_BUNDLER = ''ship-yard/workers/WORKER_BUNDLER''"
definition WORKER_DEV_SERVER :: string where
  "WORKER_DEV_SERVER = ''ship-yard/workers/WORKER_DEV_SERVER''"
definition WORKER_LINTER :: string where
  "WORKER_LINTER = ''ship-yard/workers/WORKER_LINTER''"
definition WORKER_TEST_RUNNER :: string where
  "WORKER_TEST_RUNNER = ''ship-yard/workers/WORKER_TEST_RUNNER''"
definition WORKER_TRANSPILER :: string where
  "WORKER_TRANSPILER = ''ship-yard/workers/WORKER_TRANSPILER''"
definition WORKER_WATCHER :: string where
  "WORKER_WATCHER = ''ship-yard/workers/WORKER_WATCHER''"

text \<open>The six status constants and the six worker identifiers, in the order of the file.\<close>

definition STATUSES :: "string list" where
  "STATUSES = [BUSY, DONE, ERROR, OFFLINE, READY, STOP]"

definition WORKERS :: "string list" where
  "WORKERS = [WORKER_BUNDLER, WORKER_DEV_SERVER, WORKER_LINTER, WORKER_TEST_RUNNER,
     WORKER_TRANSPILER, WORKER_WATCHER]"

text \<open>
  The registry is an Immutable.js map from worker identifier to the map of that worker's
  fields (\<open>error\<close>, \<open>name\<close>, \<open>status\<close>), as \<open>fromJS\<close> builds it from nested object literals.
\<close>

type_synonym entry = "string \<rightharpoonup> jsval"
type_synonym registry = "string \<rightharpoonup> entry"

definition worker_entry :: "string \<Rightarrow> entry" where
  "worker_entry nm = [''error'' \<mapsto> JNull, ''name'' \<mapsto> JStr nm, ''status'' \<mapsto> JStr OFFLINE]"

definition initialState :: registry where
  "initialState = [
     WORKER_BUNDLER \<mapsto> worker_entry ''Bundler'',
     WORKER_DEV_SERVER \<mapsto> worker_entry ''Dev Server'',
     WORKER_LINTER \<mapsto> worker_entry ''Linter'',
     WORKER_TEST_RUNNER \<mapsto> worker_entry ''Test Runner'',
     WORKER_TRANSPILER \<mapsto> worker_entry ''Transpiler'',
     WORKER_WATCHER \<mapsto> worker_entry ''Watcher'']"

text \<open>
  \<open>workerState.merge({error: e, status})\<close>: the two fields are set, every other field of
  the entry is kept.
\<close>

definition merge_status :: "entry \<Rightarrow> jsval \<Rightarrow> string \<Rightarrow> entry" where
  "merge_status workerState e status = workerState(''error'' \<mapsto> e, ''status'' \<mapsto> JStr status)"

text \<open>
  \<open>updateStatus(status, state, action)\<close>.  The key \<open>action.payload.worker\<close> is read first
  and throws when the payload is \<open>undefined\<close> or \<open>null\<close>.  \<open>state.update(key, f)\<close> hands \<open>f\<close>
  the value stored at the key, or \<open>undefined\<close> when the key is absent (every key of the
  registry is a string, so a key that is no string is absent); on \<open>undefined\<close> the call of
  \<open>merge\<close> throws.  Every other key of the registry is left as it is.
\<close>

definition updateStatus :: "string \<Rightarrow> registry \<Rightarrow> action \<Rightarrow> error + registry" where
  "updateStatus status state a =
     (case get_prop (payload a) ''worker'' of
        Inl x \<Rightarrow> Inl x
      | Inr (JStr w) \<Rightarrow>
          (case state w of
             None \<Rightarrow> Inl TypeError
           | Some workerState \<Rightarrow>
               (case get_prop (payload a) ''error'' of
                  Inl x \<Rightarrow> Inl x
                | Inr e \<Rightarrow> Inr (state(w \<mapsto> merge_status workerState (js_or e JNull) status))))
      | Inr other \<Rightarrow> Inl TypeError)"

text \<open>
  \<open>handleActions(handlers, defaultState)\<close> of redux-actions.  Each handler is wrapped by
  \<open>handleAction\<close>, which returns the state it is given unless the action's type is the
  handler's; the wrapped handlers are run one after the other (\<open>reduceReducers\<close>), in the
  order of the keys of the handler object, and an exception thrown by one ends the run.
  A state that is \<open>undefined\<close> (here \<open>None\<close>) is replaced by the default state.
\<close>

definition handleAction ::
  "string \<Rightarrow> (registry \<Rightarrow> action \<Rightarrow> error + registry) \<Rightarrow> registry \<Rightarrow> action \<Rightarrow> error + registry"
where
  "handleAction ty r state a = (if atype a \<noteq> ty then Inr state else r state a)"

fun reduceReducers ::
  "(registry \<Rightarrow> action \<Rightarrow> error + registry) list \<Rightarrow> registry \<Rightarrow> action \<Rightarrow> error + registry"
where
  "reduceReducers [] state a = Inr state"
| "reduceReducers (r # rs) state a =
     (case r state a of Inl x \<Rightarrow> Inl x | Inr state' \<Rightarrow> reduceReducers rs state' a)"

definition handleActions ::
  "(string \<times> (registry \<Rightarrow> action \<Rightarrow> error + registry)) list \<Rightarrow> registry \<Rightarrow>
     registry option \<Rightarrow> action \<Rightarrow> error + registry"
where
  "handleActions handlers defaultState state a =
     reduceReducers (map (\<lambda>(ty, r). handleAction ty r) handlers)
       (case state of None \<Rightarrow> defaultState | Some s \<Rightarrow> s) a"

definition reducer :: "registry option \<Rightarrow> action \<Rightarrow> error + registry" where
  "reducer = handleActions
     [(BUSY, updateStatus BUSY),
      (DONE, updateStatus DONE),
      (ERROR, updateStatus ERROR),
      (OFFLINE, updateStatus OFFLINE),
      (READY, updateStatus READY),
      (STOP, updateStatus STOP)]
     initialState"

text \<open>
  The six action creators.  All six are built with the same payload creator
  \<open>worker => ({worker})\<close>, which reads its first argument only.
\<close>

definition worker_payload :: "jsval list \<Rightarrow> jsval" where
  "worker_payload args = JObj [(''worker'', argument args 0)]"

definition workerBusy :: "jsval list \<Rightarrow> action" where
  "workerBusy = createAction BUSY worker_payload"
definition workerDone :: "jsval list \<Rightarrow> action" where
  "workerDone = createAction DONE worker_payload"
definition workerError :: "jsval list \<Rightarrow> action" where
  "workerError = createAction ERROR worker_payload"
definition workerOffline :: "jsval list \<Rightarrow> action" where
  "workerOffline = createAction OFFLINE worker_payload"
definition workerReady :: "jsval list \<Rightarrow> action" where
  "workerReady = createAction READY worker_payload"
definition workerStop :: "jsval list \<Rightarrow> action" where
  "workerStop = createAction STOP worker_payload"

text \<open>\<open>state.getIn([w, f])\<close>: the field \<open>f\<close> of worker \<open>w\<close>, \<open>undefined\<close> when either is absent.\<close>

definition getIn :: "registry \<Rightarrow> string \<Rightarrow> string \<Rightarrow> jsval" where
  "getIn state w f =
     (case state w of
        None \<Rightarrow> JUndefined
      | Some workerState \<Rightarrow> (case workerState f of None \<Rightarrow> JUndefined | Some v \<Rightarrow> v))"

subsection \<open>The registry invariant\<close>

text \<open>
  A worker has a current status when its \<open>status\<close> field holds one of the six status
  constants; the registry is well formed when its keys are the six worker identifiers and
  each of them has a current status.
\<close>

definition has_status :: "entry \<Rightarrow> bool" where
  "has_status workerState =
     (case workerState ''status'' of Some (JStr s) \<Rightarrow> s \<in> set STATUSES | _ \<Rightarrow> False)"

definition registry_ok :: "registry \<Rightarrow> bool" where
  "registry_ok state =
     (dom state = set WORKERS \<and>
      list_all (\<lambda>w. case state w of None \<Rightarrow> False | Some workerState \<Rightarrow> has_status workerState)
        WORKERS)"

section \<open>Sagas\<close>

text \<open>
  A saga is a generator.  Each call of \<open>next\<close> hands it a value (the result of the effect
  it yielded last) and runs it to its next \<open>yield\<close> or to its end.  A step of the model
  takes the generator's position and the value handed in, and gives the events of the
  step in their order together with the new position.  The effects are those of
  redux-saga that the sagas use; a function is referred to by its name.
\<close>

datatype arg = Val jsval | Act action

datatype effect =
    Take string
  | Put action
  | Call string "arg list"
  | Fork string "arg list"

datatype event =
    Yield effect
  | Launch string
  | Return

text \<open>
  Driving a generator with a list of values, one call of \<open>next\<close> each.  \<open>None\<close> is a
  value the model has no step for.
\<close>

fun run :: "('s \<Rightarrow> arg \<Rightarrow> (event list \<times> 's) option) \<Rightarrow> 's \<Rightarrow> arg list \<Rightarrow> (event list \<times> 's) option"
where
  "run step s [] = Some ([], s)"
| "run step s (x # xs) =
     (case step s x of
        None \<Rightarrow> None
      | Some (es, s') \<Rightarrow>
          (case run step s' xs of
             None \<Rightarrow> None
           | Some (es', s'') \<Rightarrow> Some (es @ es', s'')))"

subsection \<open>The worker controller\<close>

text \<open>
  Modelled from the spec: sagas/watcher.js is not among the sources.  This is what a
  controller of section 4.3 is instantiated with: its worker identifier, the name its process is
  launched under, the goals it serves, the type of the goal-change action (a constant of
  state/foreman, which is not among the sources), the type of the action that ends its
  wait, and the process-launch facility.
\<close>

record controller =
  worker :: string
  program :: string
  served :: "jsval list"
  goal_type :: string
  awaited :: string
  forkWorker :: "string \<Rightarrow> jsval"

text \<open>
  Modelled from the spec: the positions of the controller's generator (sagas/watcher.js is
  not among the sources), one for each \<open>yield\<close> it can be suspended at: not started,
  \<open>take(SET_GOAL)\<close>, \<open>put(workerBusy)\<close>, \<open>call(watchProcess)\<close>, \<open>fork(notifyForeman)\<close> and the
  \<open>take\<close> of the awaited action.
\<close>

datatype cstate = Created | Watching | Marked | Attaching | Spawned | Awaiting

text \<open>
  Modelled from the spec: sagas/watcher.js, the controller's generator, is not among the
  sources (only its test is).  The steps are the states and transitions of section 4.3
  of the specification, with the effects the test expects at each of them:
  \<^item> watching: block on \<open>take(SET_GOAL)\<close>;
  \<^item> a goal that is not served, or a worker whose status in the registry is not
    \<open>OFFLINE\<close>: back to watching, nothing else;
  \<^item> otherwise \<open>put(workerBusy(worker))\<close>, then the process is launched and
    \<open>call(watchProcess, process)\<close> yielded, then \<open>fork(notifyForeman, processWatcher)\<close>
    with the value the call returned, then \<open>take\<close> of the awaited type;
  \<^item> awaiting: an action for another worker leaves the controller in the same wait, the
    action for its own worker takes it back to watching.
  The registry is read (through \<open>getState\<close>) when a served goal arrives, not before.
  The goal of a goal-change action is its payload.
\<close>

fun controller_next ::
  "controller \<Rightarrow> registry \<Rightarrow> cstate \<Rightarrow> arg \<Rightarrow> (event list \<times> cstate) option"
where
  "controller_next c getState Created x = Some ([Yield (Take (goal_type c))], Watching)"
| "controller_next c getState Watching (Act a) =
     (if payload a \<in> set (served c) \<and> getIn getState (worker c) ''status'' = JStr OFFLINE
      then Some ([Yield (Put (workerBusy [JStr (worker c)]))], Marked)
      else Some ([Yield (Take (goal_type c))], Watching))"
| "controller_next c getState Watching (Val v) = None"
| "controller_next c getState Marked x =
     Some ([Launch (program c), Yield (Call ''watchProcess'' [Val (forkWorker c (program c))])],
           Attaching)"
| "controller_next c getState Attaching (Val processWatcher) =
     Some ([Yield (Fork ''notifyForeman'' [Val processWatcher])], Spawned)"
| "controller_next c getState Attaching (Act a) = None"
| "controller_next c getState Spawned x = Some ([Yield (Take (awaited c))], Awaiting)"
| "controller_next c getState Awaiting (Act a) =
     (case get_prop (payload a) ''worker'' of
        Inl e \<Rightarrow> None
      | Inr w \<Rightarrow>
          (if w = JStr (worker c)
           then Some ([Yield (Take (goal_type c))], Watching)
           else Some ([Yield (Take (awaited c))], Awaiting)))"
| "controller_next c getState Awaiting (Val v) = None"

text \<open>
  Modelled from the spec: \<open>startWatcher\<close> of sagas/watcher.js, which is not among the
  sources.  It is the watcher's controller: it serves the goal \<open>GOAL_WATCH\<close>, launches the
  program \<open>watcher\<close> and waits for \<open>READY\<close>.  \<open>SET_GOAL\<close> and \<open>GOAL_WATCH\<close> are constants of
  state/foreman and \<open>forkWorker\<close> is a function of utils/workers; neither file is among the
  sources, so the three are parameters.
\<close>

definition startWatcher :: "string \<Rightarrow> jsval \<Rightarrow> (string \<Rightarrow> jsval) \<Rightarrow> controller" where
  "startWatcher SET_GOAL GOAL_WATCH fork_worker =
     \<lparr>worker = WORKER_WATCHER, program = ''watcher'', served = [GOAL_WATCH],
      goal_type = SET_GOAL, awaited = READY, forkWorker = fork_worker\<rparr>"

text \<open>
  Modelled from the spec: \<open>setGoal(goal)\<close> of state/foreman, which is not among the sources.
  The goal is the action's payload.
\<close>

definition setGoal :: "string \<Rightarrow> jsval \<Rightarrow> action" where
  "setGoal SET_GOAL goal = \<lparr>atype = SET_GOAL, payload = goal\<rparr>"

subsection \<open>The transpiler\<close>

text \<open>
  Modelled from the spec: the positions of the generator \<open>transpile\<close> (sagas/transpiler.js
  is not among the sources), named after the last thing done.
\<close>

datatype tstate = T_created | T_globbed | T_transpiled | T_published | T_notified | T_finished

text \<open>
  Modelled from the spec: sagas/transpiler.js is not among the sources (only its test
  is).  \<open>transpile\<close> follows scenario C of the specification and the effects its test
  expects: glob the sources, hand the file names to the transpile facility, publish the
  transpiler's \<open>done()\<close> action, send \<open>workerDone(WORKER_TRANSPILER)\<close> to the foreman (a
  call of the bound \<open>process.send\<close>), and end.  The \<open>done()\<close> action is built by
  state/transpiler, which is not among the sources, so it is a parameter.
\<close>

fun transpile_next :: "action \<Rightarrow> tstate \<Rightarrow> arg \<Rightarrow> (event list \<times> tstate) option" where
  "transpile_next done T_created x =
     Some ([Yield (Call ''glob'' [Val (JStr ''src/**/*.js?(x)'')])], T_globbed)"
| "transpile_next done T_globbed (Val filenames) =
     Some ([Yield (Call ''babel.transpile''
              [Val (JObj [(''baseDir'', JStr ''src''), (''filenames'', filenames),
                          (''outDir'', JStr ''build''), (''sourceMaps'', JBool True)])])],
           T_transpiled)"
| "transpile_next done T_globbed (Act a) = None"
| "transpile_next done T_transpiled x = Some ([Yield (Put done)], T_published)"
| "transpile_next done T_published x =
     Some ([Yield (Call ''process.send'' [Act (workerDone [JStr WORKER_TRANSPILER])])],
           T_notified)"
| "transpile_next done T_notified x = Some ([Return], T_finished)"
| "transpile_next done T_finished x = Some ([Return], T_finished)"

section \<open>Facts about the constants\<close>

lemma statuses_distinct: "distinct STATUSES"
  by (simp add: STATUSES_def BUSY_def DONE_def ERROR_def OFFLINE_def READY_def STOP_def)

lemma workers_distinct: "distinct WORKERS"
  by (simp add: WORKERS_def WORKER_BUNDLER_def WORKER_DEV_SERVER_def WORKER_LINTER_def
      WORKER_TEST_RUNNER_def WORKER_TRANSPILER_def WORKER_WATCHER_def)

section \<open>The reducer\<close>

text \<open>
  The wrapped handlers have six different types, so at most one of them runs: the reducer
  is \<open>updateStatus\<close> at the action's type when that is a status constant, and the identity
  otherwise.
\<close>

lemma reduceReducers_no_handler:
  "atype a \<notin> fst ` set hs \<Longrightarrow>
     reduceReducers (map (\<lambda>(ty, r). handleAction ty r) hs) state a = Inr state"
  by (induction hs arbitrary: state) (auto simp: handleAction_def)

lemma reduceReducers_handler:
  "distinct (map fst hs) \<Longrightarrow> (atype a, r) \<in> set hs \<Longrightarrow>
     reduceReducers (map (\<lambda>(ty, r). handleAction ty r) hs) state a = r state a"
proof (induction hs arbitrary: state)
  case Nil
  then show ?case by simp
next
  case (Cons h hs)
  obtain ty r' where h: "h = (ty, r')" by (cases h)
  show ?case
  proof (cases "atype a = ty")
    case True
    with Cons.prems h have nots: "atype a \<notin> fst ` set hs" by auto
    from True Cons.prems h nots have r: "r' = r" by (auto simp: image_iff)
    have hit: "handleAction ty r' state a = r state a"
      using True r by (simp add: handleAction_def)
    show ?thesis
      using h hit reduceReducers_no_handler [OF nots]
      by (simp split: sum.splits)
  next
    case False
    with Cons.prems h have "(atype a, r) \<in> set hs" "distinct (map fst hs)" by auto
    with Cons.IH have "reduceReducers (map (\<lambda>(ty, r). handleAction ty r) hs) state a = r state a"
      by blast
    moreover have "handleAction ty r' state a = Inr state"
      using False by (simp add: handleAction_def)
    ultimately show ?thesis using h by simp
  qed
qed

lemma reducer_status:
  assumes "atype a \<in> set STATUSES"
  shows "reducer state a =
     updateStatus (atype a) (case state of None \<Rightarrow> initialState | Some s \<Rightarrow> s) a"
proof -
  let ?hs = "[(BUSY, updateStatus BUSY), (DONE, updateStatus DONE), (ERROR, updateStatus ERROR),
      (OFFLINE, updateStatus OFFLINE), (READY, updateStatus READY), (STOP, updateStatus STOP)]"
  have "distinct [BUSY, DONE, ERROR, OFFLINE, READY, STOP]"
    using statuses_distinct by (simp only: STATUSES_def)
  then have d: "distinct (map fst ?hs)" by simp
  have m: "(atype a, updateStatus (atype a)) \<in> set ?hs"
    using assms unfolding STATUSES_def by auto
  show ?thesis
    unfolding reducer_def handleActions_def
    by (rule reduceReducers_handler [OF d m])
qed

lemma reducer_other:
  "atype a \<notin> set STATUSES \<Longrightarrow>
     reducer state a = Inr (case state of None \<Rightarrow> initialState | Some s \<Rightarrow> s)"
  by (simp add: reducer_def handleActions_def handleAction_def STATUSES_def)

lemma reducer_undefined: "reducer None a = reducer (Some initialState) a"
  by (simp add: reducer_def handleActions_def)

lemma get_prop_defined:
  "get_prop p k = Inr v \<Longrightarrow> \<exists>v'. get_prop p k' = Inr v'"
  by (cases p) auto

lemma updateStatus_known_worker:
  assumes "get_prop (payload a) ''worker'' = Inr (JStr w)" and "state w = Some ws"
  shows "\<exists>e. get_prop (payload a) ''error'' = Inr e \<and>
     updateStatus status state a = Inr (state(w \<mapsto> merge_status ws (js_or e JNull) status))"
proof -
  from get_prop_defined [OF assms(1)] obtain e where "get_prop (payload a) ''error'' = Inr e"
    by blast
  with assms show ?thesis by (simp add: updateStatus_def)
qed

lemma updateStatus_unknown_worker:
  "get_prop (payload a) ''worker'' = Inr (JStr w) \<Longrightarrow> state w = None \<Longrightarrow>
     updateStatus status state a = Inl TypeError"
  by (simp add: updateStatus_def)

lemma merge_status_frame:
  "f \<noteq> ''status'' \<Longrightarrow> f \<noteq> ''error'' \<Longrightarrow> merge_status ws e status f = ws f"
  by (simp add: merge_status_def)

lemma merge_status_fields:
  "merge_status ws e status ''status'' = Some (JStr status)"
  "merge_status ws e status ''error'' = Some e"
  by (simp_all add: merge_status_def)

lemma initialState_lookup:
  "initialState WORKER_BUNDLER = Some (worker_entry ''Bundler'')"
  "initialState WORKER_DEV_SERVER = Some (worker_entry ''Dev Server'')"
  "initialState WORKER_LINTER = Some (worker_entry ''Linter'')"
  "initialState WORKER_TEST_RUNNER = Some (worker_entry ''Test Runner'')"
  "initialState WORKER_TRANSPILER = Some (worker_entry ''Transpiler'')"
  "initialState WORKER_WATCHER = Some (worker_entry ''Watcher'')"
  using workers_distinct by (simp_all add: initialState_def WORKERS_def)

lemma initialState_dom: "dom initialState = set WORKERS"
  by (simp add: initialState_def WORKERS_def insert_commute)

lemma worker_entry_fields:
  "worker_entry nm ''error'' = Some JNull"
  "worker_entry nm ''name'' = Some (JStr nm)"
  "worker_entry nm ''status'' = Some (JStr OFFLINE)"
  by (simp_all add: worker_entry_def)

lemma worker_action_fields:
  "atype (createAction ty worker_payload args) = ty"
  "get_prop (payload (createAction ty worker_payload args)) ''worker'' = Inr (argument args 0)"
  "get_prop (payload (createAction ty worker_payload args)) ''error'' = Inr JUndefined"
  by (simp_all add: createAction_def worker_payload_def)

lemma status_members:
  "BUSY \<in> set STATUSES" "DONE \<in> set STATUSES" "ERROR \<in> set STATUSES"
  "OFFLINE \<in> set STATUSES" "READY \<in> set STATUSES" "STOP \<in> set STATUSES"
  by (simp_all add: STATUSES_def)

lemma worker_members:
  "WORKER_BUNDLER \<in> set WORKERS" "WORKER_DEV_SERVER \<in> set WORKERS"
  "WORKER_LINTER \<in> set WORKERS" "WORKER_TEST_RUNNER \<in> set WORKERS"
  "WORKER_TRANSPILER \<in> set WORKERS" "WORKER_WATCHER \<in> set WORKERS"
  by (simp_all add: WORKERS_def)

lemma linter_not_watcher: "WORKER_LINTER \<noteq> WORKER_WATCHER"
  by (simp add: WORKER_LINTER_def WORKER_WATCHER_def)

lemma initialState_ok: "registry_ok initialState"
  by (simp add: registry_ok_def initialState_dom)
     (simp add: WORKERS_def initialState_lookup has_status_def worker_entry_fields status_members)

lemma has_status_merge:
  "status \<in> set STATUSES \<Longrightarrow> has_status (merge_status ws e status)"
  by (simp add: has_status_def merge_status_fields)

lemma updateStatus_records_error:
  assumes "payload a = JObj [(''worker'', JStr w), (''error'', e)]" and "state w = Some ws"
  shows "updateStatus status state a = Inr (state(w \<mapsto> merge_status ws (js_or e JNull) status))"
  using assms by (simp add: updateStatus_def)

lemma workerError_payload:
  "payload (workerError (w # es)) = JObj [(''worker'', w)]"
  by (simp add: workerError_def createAction_def worker_payload_def)

text \<open>
  Whatever follows the worker among the arguments of \<open>workerError\<close>, the reducer stores the
  error \<open>null\<close>.
\<close>

lemma workerError_stores_null:
  assumes "state w = Some ws"
  shows "reducer (Some state) (workerError (JStr w # es)) =
     Inr (state(w \<mapsto> merge_status ws JNull ERROR))"
proof -
  let ?a = "workerError (JStr w # es)"
  have t: "atype ?a = ERROR"
    by (simp add: workerError_def worker_action_fields)
  then have "atype ?a \<in> set STATUSES"
    by (simp add: status_members)
  then have "reducer (Some state) ?a = updateStatus ERROR state ?a"
    using reducer_status [of ?a "Some state"] t by simp
  also have "\<dots> = Inr (state(w \<mapsto> merge_status ws JNull ERROR))"
    using assms
    by (simp add: updateStatus_def workerError_def worker_action_fields js_or_def)
  finally show ?thesis .
qed

section \<open>The sagas, step by step\<close>

lemma startWatcher_fields:
  "worker (startWatcher SET_GOAL GOAL_WATCH fw) = WORKER_WATCHER"
  "program (startWatcher SET_GOAL GOAL_WATCH fw) = ''watcher''"
  "served (startWatcher SET_GOAL GOAL_WATCH fw) = [GOAL_WATCH]"
  "goal_type (startWatcher SET_GOAL GOAL_WATCH fw) = SET_GOAL"
  "awaited (startWatcher SET_GOAL GOAL_WATCH fw) = READY"
  "forkWorker (startWatcher SET_GOAL GOAL_WATCH fw) = fw"
  by (simp_all add: startWatcher_def)

lemma getIn_single:
  "getIn [w \<mapsto> [f \<mapsto> v]] w f = v"
  by (simp add: getIn_def)

lemma controller_ignored_goal:
  "payload a \<notin> set (served c) \<or> getIn getState (worker c) ''status'' \<noteq> JStr OFFLINE \<Longrightarrow>
     controller_next c getState Watching (Act a) = Some ([Yield (Take (goal_type c))], Watching)"
  by auto

lemma controller_other_worker:
  assumes "a = workerReady [v] \<or> a = workerDone [v]" and "v \<noteq> JStr (worker c)"
  shows "controller_next c getState Awaiting (Act a) = Some ([Yield (Take (awaited c))], Awaiting)"
  using assms by (auto simp: workerReady_def workerDone_def worker_action_fields)

section \<open>Claims about the registry\<close>

text \<open>
  Claim C5.  For every registry state and every status-change action addressed to a worker
  \<open>w\<close> of the registry, the reducer returns a state in which the entry of every worker
  other than \<open>w\<close> is the one it was, and in \<open>w\<close>'s entry the \<open>name\<close> field, and every other
  field that is neither \<open>status\<close> nor \<open>error\<close>, is the one it was.
\<close>

theorem reducer_frame:
  assumes "atype a \<in> set STATUSES"
    and "get_prop (payload a) ''worker'' = Inr (JStr w)"
    and "state w = Some ws"
  shows "\<exists>state' ws'. reducer (Some state) a = Inr state' \<and>
           (\<forall>k. k \<noteq> w \<longrightarrow> state' k = state k) \<and>
           state' w = Some ws' \<and>
           ws' ''name'' = ws ''name'' \<and>
           (\<forall>f. f \<noteq> ''status'' \<and> f \<noteq> ''error'' \<longrightarrow> ws' f = ws f)"
proof -
  obtain e where
    u: "updateStatus (atype a) state a =
          Inr (state(w \<mapsto> merge_status ws (js_or e JNull) (atype a)))"
    using updateStatus_known_worker [where state = state and a = a and w = w and ws = ws
        and status = "atype a"] assms(2,3)
    by blast
  have r: "reducer (Some state) a = Inr (state(w \<mapsto> merge_status ws (js_or e JNull) (atype a)))"
    using reducer_status [OF assms(1), of "Some state"] u by simp
  have n: "merge_status ws (js_or e JNull) (atype a) ''name'' = ws ''name''"
    by (rule merge_status_frame) simp_all
  show ?thesis
    using r n merge_status_frame by auto
qed

text \<open>
  The theorem at \<open>workerReady(WORKER_WATCHER)\<close> on the initial state: the linter's entry is
  untouched and the watcher keeps its name.
\<close>

theorem reducer_frame_witness:
  "atype (workerReady [JStr WORKER_WATCHER]) \<in> set STATUSES \<and>
   get_prop (payload (workerReady [JStr WORKER_WATCHER])) ''worker'' = Inr (JStr WORKER_WATCHER) \<and>
   initialState WORKER_WATCHER = Some (worker_entry ''Watcher'') \<and>
   (\<exists>state' ws'. reducer (Some initialState) (workerReady [JStr WORKER_WATCHER]) = Inr state' \<and>
      state' WORKER_LINTER = initialState WORKER_LINTER \<and>
      state' WORKER_WATCHER = Some ws' \<and>
      ws' ''name'' = Some (JStr ''Watcher''))"
proof -
  let ?a = "workerReady [JStr WORKER_WATCHER]"
  have h1: "atype ?a \<in> set STATUSES"
    by (simp add: workerReady_def worker_action_fields status_members)
  have h2: "get_prop (payload ?a) ''worker'' = Inr (JStr WORKER_WATCHER)"
    by (simp add: workerReady_def worker_action_fields)
  have h3: "initialState WORKER_WATCHER = Some (worker_entry ''Watcher'')"
    by (rule initialState_lookup)
  obtain state' ws' where
    r: "reducer (Some initialState) ?a = Inr state'"
    and f: "\<forall>k. k \<noteq> WORKER_WATCHER \<longrightarrow> state' k = initialState k"
    and w: "state' WORKER_WATCHER = Some ws'"
    and n: "ws' ''name'' = worker_entry ''Watcher'' ''name''"
    using reducer_frame [where state = initialState, OF h1 h2 h3]
    by (elim exE conjE) (rule that; assumption)
  have l: "state' WORKER_LINTER = initialState WORKER_LINTER"
    using f linter_not_watcher by (elim allE [where x = WORKER_LINTER]) (rule mp; assumption)
  have n': "ws' ''name'' = Some (JStr ''Watcher'')"
    using n by (simp only: worker_entry_fields)
  show ?thesis
    using h1 h2 h3 r l w n' by (intro conjI exI [where x = state'] exI [where x = ws'])
qed

text \<open>
  Claim C7.  The initial state of the registry has exactly the six workers as its keys,
  and each of them (Bundler, Dev Server, Linter, Test Runner, Transpiler, Watcher) has the
  status \<open>OFFLINE\<close> and the error \<open>null\<close>.
\<close>

theorem initialState_six_offline:
  "dom initialState =
     {WORKER_BUNDLER, WORKER_DEV_SERVER, WORKER_LINTER, WORKER_TEST_RUNNER,
      WORKER_TRANSPILER, WORKER_WATCHER} \<and>
   card (dom initialState) = 6 \<and>
   map (\<lambda>w. getIn initialState w ''status'') WORKERS = replicate 6 (JStr OFFLINE) \<and>
   map (\<lambda>w. getIn initialState w ''error'') WORKERS = replicate 6 JNull \<and>
   map (\<lambda>w. getIn initialState w ''name'') WORKERS =
     [JStr ''Bundler'', JStr ''Dev Server'', JStr ''Linter'', JStr ''Test Runner'',
      JStr ''Transpiler'', JStr ''Watcher'']"
proof -
  have d: "dom initialState = set WORKERS" by (rule initialState_dom)
  have c: "card (set WORKERS) = 6"
    using distinct_card [OF workers_distinct] by (simp add: WORKERS_def)
  have m: "map (\<lambda>w. getIn initialState w f) WORKERS =
      map (\<lambda>nm. case worker_entry nm f of None \<Rightarrow> JUndefined | Some v \<Rightarrow> v)
        [''Bundler'', ''Dev Server'', ''Linter'', ''Test Runner'', ''Transpiler'', ''Watcher'']" for f
    by (simp add: WORKERS_def getIn_def initialState_lookup)
  show ?thesis
    using d c by (simp add: m worker_entry_fields) (simp add: WORKERS_def numeral_eq_Suc)
qed

text \<open>
  Claim C9.  For an action whose type is none of the six status constants the reducer
  returns the state it was given, and the initial state when it was given \<open>undefined\<close>.
\<close>

theorem reducer_ignores_other_actions:
  assumes "atype a \<notin> set STATUSES"
  shows "reducer (Some state) a = Inr state \<and> reducer None a = Inr initialState"
  using assms by (simp add: reducer_other)

theorem reducer_ignores_other_actions_witness:
  "atype \<lparr>atype = ''@@redux/INIT'', payload = JUndefined\<rparr> \<notin> set STATUSES \<and>
   reducer (Some Map.empty) \<lparr>atype = ''@@redux/INIT'', payload = JUndefined\<rparr> = Inr Map.empty \<and>
   reducer None \<lparr>atype = ''@@redux/INIT'', payload = JUndefined\<rparr> = Inr initialState"
proof -
  have h: "atype \<lparr>atype = ''@@redux/INIT'', payload = JUndefined\<rparr> \<notin> set STATUSES"
    by (simp add: STATUSES_def BUSY_def DONE_def ERROR_def OFFLINE_def READY_def STOP_def)
  from reducer_ignores_other_actions [OF h, of Map.empty] h show ?thesis by simp
qed

text \<open>
  Claim C8.  Applied to a well-formed registry (its keys are the six workers, each with a
  current status) and an action addressed to one of the six workers, the reducer returns
  a registry with the same keys that is well formed again: no identifier is added or
  removed, and each worker still has a current status.
\<close>

theorem reducer_preserves_registry:
  assumes "registry_ok state"
    and "get_prop (payload a) ''worker'' = Inr (JStr w)"
    and "w \<in> set WORKERS"
  shows "\<exists>state'. reducer (Some state) a = Inr state' \<and> dom state' = dom state \<and>
           registry_ok state'"
proof (cases "atype a \<in> set STATUSES")
  case False
  then have "reducer (Some state) a = Inr state" by (simp add: reducer_other)
  with assms(1) show ?thesis by simp
next
  case True
  from assms(1,3) have "w \<in> dom state" by (simp add: registry_ok_def)
  then obtain ws where ws: "state w = Some ws" by (auto simp: dom_def)
  obtain e where
    u: "updateStatus (atype a) state a =
          Inr (state(w \<mapsto> merge_status ws (js_or e JNull) (atype a)))"
    using updateStatus_known_worker [where state = state and a = a and w = w and ws = ws
        and status = "atype a"] assms(2) ws
    by blast
  let ?state' = "state(w \<mapsto> merge_status ws (js_or e JNull) (atype a))"
  have r: "reducer (Some state) a = Inr ?state'"
    using reducer_status [OF True, of "Some state"] u by simp
  have d: "dom ?state' = dom state"
    using \<open>w \<in> dom state\<close> by (simp add: insert_absorb)
  have "registry_ok ?state'"
    using assms(1) d has_status_merge [OF True]
    by (auto simp: registry_ok_def list_all_iff simp del: dom_fun_upd fun_upd_apply
          simp add: fun_upd_apply)
  with r d show ?thesis by (intro exI [where x = ?state'] conjI)
qed

theorem reducer_preserves_registry_witness:
  "registry_ok initialState \<and>
   get_prop (payload (workerBusy [JStr WORKER_TRANSPILER])) ''worker'' = Inr (JStr WORKER_TRANSPILER) \<and>
   WORKER_TRANSPILER \<in> set WORKERS \<and>
   (\<exists>state'. reducer (Some initialState) (workerBusy [JStr WORKER_TRANSPILER]) = Inr state' \<and>
      dom state' = dom initialState \<and> registry_ok state')"
proof -
  let ?a = "workerBusy [JStr WORKER_TRANSPILER]"
  have h1: "registry_ok initialState" by (rule initialState_ok)
  have h2: "get_prop (payload ?a) ''worker'' = Inr (JStr WORKER_TRANSPILER)"
    by (simp add: workerBusy_def worker_action_fields)
  have h3: "WORKER_TRANSPILER \<in> set WORKERS" by (rule worker_members)
  from reducer_preserves_registry [OF h1 h2 h3] h1 h2 h3 show ?thesis
    by (intro conjI)
qed

text \<open>
  Claim C6.  The claim is that the action of \<open>workerError(w, e)\<close> makes the reducer store
  \<open>e\<close> in \<open>w\<close>'s \<open>error\<close> field together with the status \<open>ERROR\<close>.  The reducer does store the
  \<open>error\<close> property of a payload (\<open>updateStatus_records_error\<close>), but the payload that
  \<open>workerError\<close> builds has no such property (\<open>workerError_payload\<close>), so the error stored
  is \<open>null\<close> for every \<open>e\<close> (\<open>workerError_stores_null\<close>): at
  \<open>workerError(WORKER_LINTER, 'boom')\<close> on the initial state, the linter ends with the status
  \<open>ERROR\<close> and the error \<open>null\<close>.
\<close>

theorem workerError_drops_error:
  "\<exists>state'. reducer (Some initialState) (workerError [JStr WORKER_LINTER, JStr ''boom'']) = Inr state' \<and>
     getIn state' WORKER_LINTER ''status'' = JStr ERROR \<and>
     getIn state' WORKER_LINTER ''error'' = JNull \<and>
     getIn state' WORKER_LINTER ''error'' \<noteq> JStr ''boom''"
proof -
  let ?a = "workerError [JStr WORKER_LINTER, JStr ''boom'']"
  let ?state' = "initialState(WORKER_LINTER \<mapsto> merge_status (worker_entry ''Linter'') JNull ERROR)"
  have t: "atype ?a \<in> set STATUSES"
    by (simp add: workerError_def worker_action_fields status_members)
  have u: "updateStatus ERROR initialState ?a = Inr ?state'"
    by (simp add: updateStatus_def workerError_def worker_action_fields initialState_lookup
        js_or_def)
  have r: "reducer (Some initialState) ?a = Inr ?state'"
    using reducer_status [OF t, of "Some initialState"] u
    by (simp add: workerError_def worker_action_fields)
  have "getIn ?state' WORKER_LINTER ''status'' = JStr ERROR"
    and "getIn ?state' WORKER_LINTER ''error'' = JNull"
    by (simp_all add: getIn_def merge_status_fields)
  with r show ?thesis by (intro exI [where x = ?state']) simp
qed

section \<open>Claims about the sagas\<close>

text \<open>
  Claim C1.  The watcher's controller, with the watcher registered as \<open>OFFLINE\<close>: once it
  blocks on \<open>take(SET_GOAL)\<close> and receives \<open>setGoal(GOAL_WATCH)\<close>, it publishes
  \<open>workerBusy(WORKER_WATCHER)\<close>, launches the program \<open>watcher\<close>, yields
  \<open>call(watchProcess, process)\<close> with the launched process, then
  \<open>fork(notifyForeman, processWatcher)\<close> with the value the call returned, then blocks on
  \<open>take(READY)\<close>; on \<open>workerReady(WORKER_WATCHER)\<close> it blocks on \<open>take(SET_GOAL)\<close> again.
  The values handed in after the \<open>put\<close> and after the \<open>fork\<close> are arbitrary.
\<close>

theorem startWatcher_launch_sequence:
  assumes "getIn getState WORKER_WATCHER ''status'' = JStr OFFLINE"
  shows "run (controller_next (startWatcher SET_GOAL GOAL_WATCH fw) getState) Created
           [x0, Act (setGoal SET_GOAL GOAL_WATCH), x1, Val processWatcher, x2,
            Act (workerReady [JStr WORKER_WATCHER])] =
         Some ([Yield (Take SET_GOAL),
                Yield (Put (workerBusy [JStr WORKER_WATCHER])),
                Launch ''watcher'',
                Yield (Call ''watchProcess'' [Val (fw ''watcher'')]),
                Yield (Fork ''notifyForeman'' [Val processWatcher]),
                Yield (Take READY),
                Yield (Take SET_GOAL)], Watching)"
  using assms
  by (simp add: startWatcher_fields setGoal_def workerReady_def worker_action_fields)

theorem startWatcher_launch_sequence_witness:
  "getIn [WORKER_WATCHER \<mapsto> [''status'' \<mapsto> JStr OFFLINE]] WORKER_WATCHER ''status'' = JStr OFFLINE \<and>
   run (controller_next (startWatcher ''SET_GOAL'' (JStr ''GOAL_WATCH'') (\<lambda>n. JObj []))
          [WORKER_WATCHER \<mapsto> [''status'' \<mapsto> JStr OFFLINE]]) Created
     [Val JUndefined, Act (setGoal ''SET_GOAL'' (JStr ''GOAL_WATCH'')), Val JUndefined,
      Val (JObj []), Val JUndefined, Act (workerReady [JStr WORKER_WATCHER])] =
   Some ([Yield (Take ''SET_GOAL''),
          Yield (Put (workerBusy [JStr WORKER_WATCHER])),
          Launch ''watcher'',
          Yield (Call ''watchProcess'' [Val (JObj [])]),
          Yield (Fork ''notifyForeman'' [Val (JObj [])]),
          Yield (Take READY),
          Yield (Take ''SET_GOAL'')], Watching)"
proof -
  have h: "getIn [WORKER_WATCHER \<mapsto> [''status'' \<mapsto> JStr OFFLINE]] WORKER_WATCHER ''status'' =
      JStr OFFLINE"
    by (rule getIn_single)
  from startWatcher_launch_sequence [OF h] h show ?thesis by simp
qed

text \<open>
  Claim C2.  A controller that is watching, handed any sequence of goal changes each of
  which is for a goal it does not serve or arrives while its worker is not \<open>OFFLINE\<close> in
  the registry, answers each of them with \<open>take(SET_GOAL)\<close> and nothing else: no
  \<open>workerBusy\<close> is published and no process is launched, however often the goal is
  repeated.
\<close>

theorem controller_ignores_goal:
  assumes "\<forall>a \<in> set as.
     payload a \<notin> set (served c) \<or> getIn getState (worker c) ''status'' \<noteq> JStr OFFLINE"
  shows "run (controller_next c getState) Watching (map Act as) =
     Some (replicate (length as) (Yield (Take (goal_type c))), Watching)"
  using assms
proof (induction as)
  case Nil
  show ?case by simp
next
  case (Cons a as)
  from Cons.prems have
    "controller_next c getState Watching (Act a) = Some ([Yield (Take (goal_type c))], Watching)"
    by (intro controller_ignored_goal) simp
  moreover from Cons have "run (controller_next c getState) Watching (map Act as) =
      Some (replicate (length as) (Yield (Take (goal_type c))), Watching)"
    by simp
  ultimately show ?case by simp
qed

text \<open>
  The theorem on the watcher's controller with the watcher registered as \<open>BUSY\<close>: the goal
  it serves and a goal it does not serve are both answered with \<open>take(SET_GOAL)\<close>.
\<close>

theorem controller_ignores_goal_witness:
  "getIn [WORKER_WATCHER \<mapsto> [''status'' \<mapsto> JStr BUSY]] WORKER_WATCHER ''status'' = JStr BUSY \<and>
   JStr BUSY \<noteq> JStr OFFLINE \<and>
   run (controller_next (startWatcher ''SET_GOAL'' (JStr ''GOAL_WATCH'') (\<lambda>n. JObj []))
          [WORKER_WATCHER \<mapsto> [''status'' \<mapsto> JStr BUSY]]) Watching
     [Act (setGoal ''SET_GOAL'' (JStr ''GOAL_WATCH'')), Act (setGoal ''SET_GOAL'' (JStr ''GOAL_LINT''))] =
   Some ([Yield (Take ''SET_GOAL''), Yield (Take ''SET_GOAL'')], Watching)"
proof -
  let ?c = "startWatcher ''SET_GOAL'' (JStr ''GOAL_WATCH'') (\<lambda>n. JObj [])"
  let ?reg = "[WORKER_WATCHER \<mapsto> [''status'' \<mapsto> JStr BUSY]]"
  let ?as = "[setGoal ''SET_GOAL'' (JStr ''GOAL_WATCH''), setGoal ''SET_GOAL'' (JStr ''GOAL_LINT'')]"
  have g: "getIn ?reg WORKER_WATCHER ''status'' = JStr BUSY"
    by (rule getIn_single)
  have n: "JStr BUSY \<noteq> JStr OFFLINE"
    by (simp add: BUSY_def OFFLINE_def)
  from g n have busy: "getIn ?reg (worker ?c) ''status'' \<noteq> JStr OFFLINE"
    by (simp add: startWatcher_fields)
  then have h: "\<forall>a \<in> set ?as.
      payload a \<notin> set (served ?c) \<or> getIn ?reg (worker ?c) ''status'' \<noteq> JStr OFFLINE"
    by blast
  from controller_ignores_goal [OF h] g n show ?thesis
    by (simp add: startWatcher_fields)
qed

text \<open>
  Claim C3.  A controller that awaits readiness, handed any sequence of \<open>workerReady\<close> and
  \<open>workerDone\<close> actions addressed to identifiers other than its own worker, answers each
  of them with the same \<open>take\<close> and stays in the same wait.
\<close>

theorem controller_stays_blocked:
  assumes "\<forall>a \<in> set as. \<exists>v. (a = workerReady [v] \<or> a = workerDone [v]) \<and> v \<noteq> JStr (worker c)"
  shows "run (controller_next c getState) Awaiting (map Act as) =
     Some (replicate (length as) (Yield (Take (awaited c))), Awaiting)"
  using assms
proof (induction as)
  case Nil
  show ?case by simp
next
  case (Cons a as)
  from Cons.prems obtain v where
    "a = workerReady [v] \<or> a = workerDone [v]" and "v \<noteq> JStr (worker c)"
    by auto
  then have
    "controller_next c getState Awaiting (Act a) = Some ([Yield (Take (awaited c))], Awaiting)"
    by (rule controller_other_worker)
  moreover from Cons have "run (controller_next c getState) Awaiting (map Act as) =
      Some (replicate (length as) (Yield (Take (awaited c))), Awaiting)"
    by simp
  ultimately show ?case by simp
qed

text \<open>
  The theorem on the watcher's controller: \<open>workerReady(WORKER_LINTER)\<close> and
  \<open>workerDone(WORKER_TRANSPILER)\<close> are both answered with \<open>take(READY)\<close>.
\<close>

theorem controller_stays_blocked_witness:
  "JStr WORKER_LINTER \<noteq> JStr WORKER_WATCHER \<and>
   JStr WORKER_TRANSPILER \<noteq> JStr WORKER_WATCHER \<and>
   run (controller_next (startWatcher ''SET_GOAL'' (JStr ''GOAL_WATCH'') (\<lambda>n. JObj []))
          [WORKER_WATCHER \<mapsto> [''status'' \<mapsto> JStr OFFLINE]]) Awaiting
     [Act (workerReady [JStr WORKER_LINTER]), Act (workerDone [JStr WORKER_TRANSPILER])] =
   Some ([Yield (Take READY), Yield (Take READY)], Awaiting)"
proof -
  let ?c = "startWatcher ''SET_GOAL'' (JStr ''GOAL_WATCH'') (\<lambda>n. JObj [])"
  let ?as = "[workerReady [JStr WORKER_LINTER], workerDone [JStr WORKER_TRANSPILER]]"
  have l: "JStr WORKER_LINTER \<noteq> JStr WORKER_WATCHER"
    using linter_not_watcher by simp
  have t: "JStr WORKER_TRANSPILER \<noteq> JStr WORKER_WATCHER"
    using workers_distinct by (simp add: WORKERS_def)
  have h: "\<forall>a \<in> set ?as.
      \<exists>v. (a = workerReady [v] \<or> a = workerDone [v]) \<and> v \<noteq> JStr (worker ?c)"
    using l t by (auto simp: startWatcher_fields)
  from controller_stays_blocked [OF h] l t show ?thesis
    by (simp add: startWatcher_fields)
qed

text \<open>
  Claim C4.  \<open>transpile\<close>, driven from its start with the file names as the result of the
  glob, yields \<open>call(glob, 'src/**/*.js?(x)')\<close>, then \<open>call(babel.transpile, {baseDir: 'src',
  filenames, outDir: 'build', sourceMaps: true})\<close>, then \<open>put(done())\<close>, then the call that
  sends \<open>workerDone(WORKER_TRANSPILER)\<close> to the foreman, and then returns.
\<close>

theorem transpile_sequence:
  "run (transpile_next done) T_created [x0, Val filenames, x1, x2, x3] =
     Some ([Yield (Call ''glob'' [Val (JStr ''src/**/*.js?(x)'')]),
            Yield (Call ''babel.transpile''
              [Val (JObj [(''baseDir'', JStr ''src''), (''filenames'', filenames),
                          (''outDir'', JStr ''build''), (''sourceMaps'', JBool True)])]),
            Yield (Put done),
            Yield (Call ''process.send'' [Act (workerDone [JStr WORKER_TRANSPILER])]),
            Return], T_finished)"
  by simp

end
